theory Spec2Isabelle
  imports Main "HOL-Library.Word"
begin

section \<open>Machine types and failures\<close>

type_synonym u8 = "8 word"
type_synonym s16 = "16 word"
type_synonym u16 = "16 word"
type_synonym u32 = "32 word"

text \<open>
  A C++ exception is a value: \<open>Runtime_error msg\<close> is \<open>std::runtime_error(msg)\<close>,
  \<open>Future_error\<close> is the \<open>std::future_error\<close> of a second \<open>set_value\<close> on one
  promise. \<open>Out_of_bounds\<close> is not an exception of the source: it marks an access to a raw
  array at or beyond its declared size, where C++ leaves the behaviour undefined.
\<close>

datatype failure = Runtime_error string | Future_error | Out_of_bounds

section \<open>The joystick poller (src/util/joystick.cpp)\<close>

text \<open>
  Modelled from the spec: \<open>util/joystick.hpp\<close> is not among the sources. The spec describes
  an axis state as a pair (x, y) of signed values taken from the signed 16-bit value of an
  event record, the two tables as fixed-size raw arrays, and the two counts as the counts
  queried at open time (the ioctls \<open>JSIOCGAXES\<close> and \<open>JSIOCGBUTTONS\<close> write one byte each).
  The declared sizes of the arrays are unknown: they are the lengths of the lists
  \<open>axis_map\<close> and \<open>button_map\<close>.
\<close>

record AxisState =
  axis_x :: s16
  axis_y :: s16

text \<open>
  \<open>struct js_event\<close> of \<open>linux/joystick.h\<close>, and its two event types.
\<close>

record js_event =
  ev_time :: u32
  ev_value :: s16
  ev_type :: u8
  ev_number :: u8

definition JS_EVENT_BUTTON :: u8 where
  "JS_EVENT_BUTTON = 0x01"

definition JS_EVENT_AXIS :: u8 where
  "JS_EVENT_AXIS = 0x02"

text \<open>
  The members of \<open>Joystick\<close> that the properties below are about. A callback
  \<open>std::function<void(bool)>\<close> is a value of the type \<open>'cb\<close>; \<open>None\<close> is \<open>nullptr\<close>.
  What a callback does is outside this file, so \<open>invoked\<close> records every call the poller
  thread makes: the callback and its argument, in order.
\<close>

record 'cb joystick =
  num_axes :: u8
  num_buttons :: u8
  axis_map :: "AxisState list"
  button_map :: "'cb option list"
  invoked :: "('cb \<times> bool) list"

text \<open>
  An indexed write to a raw array: undefined at or beyond the declared size.
\<close>

definition array_set :: "'a list \<Rightarrow> nat \<Rightarrow> 'a \<Rightarrow> failure + 'a list" where
  "array_set xs i v = (if i < length xs then Inr (xs[i := v]) else Inl Out_of_bounds)"

definition array_get :: "'a list \<Rightarrow> nat \<Rightarrow> failure + 'a" where
  "array_get xs i = (if i < length xs then Inr (xs ! i) else Inl Out_of_bounds)"

text \<open>
  The two initialisation loops of the constructor, \<open>for (int i = 0; i < n; i++)\<close>, counting
  \<open>i\<close> upwards: \<open>k\<close> is the number of iterations left.
\<close>

fun init_axes :: "nat \<Rightarrow> nat \<Rightarrow> AxisState list \<Rightarrow> failure + AxisState list" where
  "init_axes i 0 m = Inr m"
| "init_axes i (Suc k) m =
     (case array_get m i of
        Inl e \<Rightarrow> Inl e
      | Inr a \<Rightarrow>
          (case array_set m i (a\<lparr>axis_x := 0, axis_y := 0\<rparr>) of
             Inl e \<Rightarrow> Inl e
           | Inr m' \<Rightarrow> init_axes (Suc i) k m'))"

fun init_buttons :: "nat \<Rightarrow> nat \<Rightarrow> 'cb option list \<Rightarrow> failure + 'cb option list" where
  "init_buttons i 0 m = Inr m"
| "init_buttons i (Suc k) m =
     (case array_set m i None of
        Inl e \<Rightarrow> Inl e
      | Inr m' \<Rightarrow> init_buttons (Suc i) k m')"

text \<open>
  The constructor \<open>Joystick::Joystick(device_name)\<close>. The environment is a parameter:
  whether \<open>open\<close> succeeds, what the two ioctls report (\<open>None\<close> when the ioctl returns -1),
  and the content of the two arrays before the loops run. The file descriptor flags and
  the launch of the thread change none of the members above.
\<close>

definition Joystick ::
  "bool \<Rightarrow> u8 option \<Rightarrow> u8 option \<Rightarrow> AxisState list \<Rightarrow> 'cb option list
     \<Rightarrow> failure + 'cb joystick" where
  "Joystick open_ok axes buttons axis_mem button_mem =
     (if \<not> open_ok then Inl (Runtime_error ''Joystick: Couldn't open joystick device'')
      else case axes of
        None \<Rightarrow> Inl (Runtime_error ''Joystick: ioctl (JSIOCGAXES) failed'')
      | Some na \<Rightarrow>
         (case buttons of
            None \<Rightarrow> Inl (Runtime_error ''Joystick: ioctl (JSIOCGBUTTONS) failed'')
          | Some nb \<Rightarrow>
             (case init_axes 0 (unat na) axis_mem of
                Inl e \<Rightarrow> Inl e
              | Inr am \<Rightarrow>
                 (case init_buttons 0 (unat nb) button_mem of
                    Inl e \<Rightarrow> Inl e
                  | Inr bm \<Rightarrow>
                      Inr \<lparr>num_axes = na, num_buttons = nb, axis_map = am,
                           button_map = bm, invoked = []\<rparr>))))"

text \<open>
  \<open>Joystick::get_axis_state\<close> and \<open>Joystick::set_button_callback\<close>. Each returns its
  outcome together with the object after the call, so that a throw leaves a state to speak
  about. The comparison \<open>axis >= num_axes_\<close> is on the promoted unsigned values.
\<close>

definition get_axis_state ::
  "'cb joystick \<Rightarrow> u8 \<Rightarrow> (failure + AxisState) \<times> 'cb joystick" where
  "get_axis_state s axis =
     (if unat axis \<ge> unat (num_axes s)
      then (Inl (Runtime_error ''Joystick: get_axis_state: axis value out of range''), s)
      else (case array_get (axis_map s) (unat axis) of
              Inl e \<Rightarrow> (Inl e, s)
            | Inr a \<Rightarrow> (Inr \<lparr>axis_x = axis_x a, axis_y = axis_y a\<rparr>, s)))"

definition set_button_callback ::
  "'cb joystick \<Rightarrow> u8 \<Rightarrow> 'cb option \<Rightarrow> (failure + unit) \<times> 'cb joystick" where
  "set_button_callback s button callback =
     (if unat button \<ge> unat (num_buttons s)
      then (Inl (Runtime_error ''Joystick: set_button_callback: button value out of range''), s)
      else (case array_set (button_map s) (unat button) callback of
              Inl e \<Rightarrow> (Inl e, s)
            | Inr bm \<Rightarrow> (Inr (), s\<lparr>button_map := bm\<rparr>)))"

text \<open>
  The assignments \<open>axis_map_[k].x = event.value\<close> and \<open>axis_map_[k].y = event.value\<close>.
\<close>

definition store_x :: "'cb joystick \<Rightarrow> nat \<Rightarrow> s16 \<Rightarrow> failure + 'cb joystick" where
  "store_x s k v =
     (case array_get (axis_map s) k of
        Inl e \<Rightarrow> Inl e
      | Inr a \<Rightarrow>
         (case array_set (axis_map s) k (a\<lparr>axis_x := v\<rparr>) of
            Inl e \<Rightarrow> Inl e
          | Inr am \<Rightarrow> Inr (s\<lparr>axis_map := am\<rparr>)))"

definition store_y :: "'cb joystick \<Rightarrow> nat \<Rightarrow> s16 \<Rightarrow> failure + 'cb joystick" where
  "store_y s k v =
     (case array_get (axis_map s) k of
        Inl e \<Rightarrow> Inl e
      | Inr a \<Rightarrow>
         (case array_set (axis_map s) k (a\<lparr>axis_y := v\<rparr>) of
            Inl e \<Rightarrow> Inl e
          | Inr am \<Rightarrow> Inr (s\<lparr>axis_map := am\<rparr>)))"

text \<open>
  The body of the \<open>switch (event.type)\<close> in \<open>Joystick::input_thread_func\<close>, for one
  event record that \<open>read\<close> delivered whole. The button case indexes \<open>button_map_\<close> with
  \<open>event.number\<close> as it comes; the axis case is the inner \<open>switch (event.number)\<close>, which
  has no default.
\<close>

definition handle_event :: "'cb joystick \<Rightarrow> js_event \<Rightarrow> failure + 'cb joystick" where
  "handle_event s ev =
     (if ev_type ev = JS_EVENT_BUTTON then
        (case array_get (button_map s) (unat (ev_number ev)) of
           Inl e \<Rightarrow> Inl e
         | Inr None \<Rightarrow> Inr s
         | Inr (Some cb) \<Rightarrow> Inr (s\<lparr>invoked := invoked s @ [(cb, ev_value ev \<noteq> 0)]\<rparr>))
      else if ev_type ev = JS_EVENT_AXIS then
        (if ev_number ev = 0 then store_x s 0 (ev_value ev)
         else if ev_number ev = 1 then store_y s 0 (ev_value ev)
         else if ev_number ev = 2 then store_x s 2 (ev_value ev)
         else if ev_number ev = 3 then store_x s 1 (ev_value ev)
         else if ev_number ev = 4 then store_y s 1 (ev_value ev)
         else if ev_number ev = 5 then store_y s 2 (ev_value ev)
         else if ev_number ev = 6 then store_x s 3 (ev_value ev)
         else if ev_number ev = 7 then store_y s 3 (ev_value ev)
         else Inr s)
      else Inr s)"

text \<open>
  The loop of \<open>Joystick::input_thread_func\<close>. It runs until the destructor sets
  \<open>should_exit_\<close>; the list holds what the successive calls of \<open>read\<close> gave before that:
  \<open>Some ev\<close> for a whole record, \<open>None\<close> for anything else (the descriptor is
  non-blocking).
\<close>

fun input_thread_func :: "'cb joystick \<Rightarrow> js_event option list \<Rightarrow> failure + 'cb joystick" where
  "input_thread_func s [] = Inr s"
| "input_thread_func s (None # rs) = input_thread_func s rs"
| "input_thread_func s (Some ev # rs) =
     (case handle_event s ev of
        Inl e \<Rightarrow> Inl e
      | Inr s' \<Rightarrow> input_thread_func s' rs)"

subsection \<open>The routing table of the spec\<close>

text \<open>
  The spec's table for axis events, in its own words: raw axis numbers 0 and 1 map to slot
  0's (x, y), 2 and 5 to slot 2's (x, y), 3 and 4 to slot 1's (x, y), 6 and 7 to slot 3's
  (x, y), and any other raw number is a no-op. \<open>spec_route\<close> is the table applied to the
  array of slots. These two are the specification that \<open>handle_event\<close> is compared with;
  no definition from the source uses them.
\<close>

datatype coord = X | Y

definition spec_axis_table :: "u8 \<Rightarrow> (nat \<times> coord) option" where
  "spec_axis_table n =
     (if n = 0 then Some (0, X) else if n = 1 then Some (0, Y)
      else if n = 2 then Some (2, X) else if n = 5 then Some (2, Y)
      else if n = 3 then Some (1, X) else if n = 4 then Some (1, Y)
      else if n = 6 then Some (3, X) else if n = 7 then Some (3, Y)
      else None)"

definition put :: "coord \<Rightarrow> s16 \<Rightarrow> AxisState \<Rightarrow> AxisState" where
  "put c v a = (case c of X \<Rightarrow> a\<lparr>axis_x := v\<rparr> | Y \<Rightarrow> a\<lparr>axis_y := v\<rparr>)"

definition spec_route :: "u8 \<Rightarrow> s16 \<Rightarrow> AxisState list \<Rightarrow> AxisState list" where
  "spec_route n v m =
     (case spec_axis_table n of None \<Rightarrow> m | Some (k, c) \<Rightarrow> m[k := put c v (m ! k)])"

section \<open>The control loop (test/minipro/t_minipro.cpp)\<close>

definition sign :: "int \<Rightarrow> int" where
  "sign a = (if a > 0 then 1 else - 1)"

definition zero_threshold_x :: int where
  "zero_threshold_x = 8000"

definition zero_threshold_y :: int where
  "zero_threshold_y = 8000"

text \<open>
  The transform that lines 72 to 77 apply to the throttle and lines 79 to 83 to the
  steering, with the threshold as a parameter. The operands are C \<open>int\<close>s that come from
  a negated 16-bit value, so no operation leaves the range of \<open>int\<close> (lemma
  \<open>deadzone_fits_int\<close>), and they are modelled as unbounded integers.
\<close>

definition deadzone :: "int \<Rightarrow> int \<Rightarrow> int" where
  "deadzone T v = (if \<bar>v\<bar> < T then 0 else (\<bar>v\<bar> - T) * sign v)"

text \<open>
  \<open>steering /= 10.0\<close> on an \<open>int\<close>: the quotient is computed in \<open>double\<close> and converted
  back, which truncates towards zero. A \<open>double\<close> holds every integer below \<open>2 ^ 53\<close>
  exactly and the rounded quotient of such an integer by ten never reaches the next
  integer, so the result is the truncated integer quotient.
\<close>

definition damp :: "int \<Rightarrow> int" where
  "damp s = sgn s * (\<bar>s\<bar> div 10)"

text \<open>
  Modelled from the spec: \<open>util/xbox360_controller.hpp\<close> is not among the sources. The
  spec's axis index 0 is the left stick, as the comment at line 126 of joystick.cpp says of
  \<open>XBox360Controller::Axis_LeftThumbstick\<close>.
\<close>

definition Axis_LeftThumbstick :: u8 where
  "Axis_LeftThumbstick = 0"

text \<open>
  One pass through the body of the \<open>while\<close> loop of \<open>main\<close>, up to the arguments of
  \<open>minipro.drive\<close>: the pair (throttle, steering). Both reads of the iteration see the
  same state of the poller.
\<close>

definition loop_body :: "'cb joystick \<Rightarrow> failure + (int \<times> int)" where
  "loop_body js =
     (case fst (get_axis_state js Axis_LeftThumbstick) of
        Inl e \<Rightarrow> Inl e
      | Inr a \<Rightarrow>
         (let throttle = - sint (axis_y a);
              steering = - sint (axis_x a);
              throttle' = (if \<bar>throttle\<bar> < zero_threshold_x then 0
                           else (\<bar>throttle\<bar> - zero_threshold_x) * sign throttle);
              steering' = (if \<bar>steering\<bar> < zero_threshold_y then 0
                           else damp ((\<bar>steering\<bar> - zero_threshold_y) * sign steering))
          in Inr (throttle', steering')))"

text \<open>
  \<open>signal_handler\<close> assigns \<open>true\<close> to the flag \<open>should_exit\<close>, whatever the signal; the
  second argument is the flag before.
\<close>

definition signal_handler :: "int \<Rightarrow> bool \<Rightarrow> bool" where
  "signal_handler signum should_exit = True"

definition SIGINT :: int where
  "SIGINT = 2"

text \<open>
  Modelled from the spec: \<open>minipro/minipro.hpp\<close> is not among the sources. The calls that
  \<open>main\<close> makes on the \<open>MiniPro\<close> object are recorded in order, not interpreted;
  \<open>Connect\<close> is its constructor and \<open>Release\<close> its destructor, which runs when the
  \<open>try\<close> block is left, by its end or by an exception. By section 7 of the spec a
  protocol status is never thrown, so the recorded calls do not throw.
\<close>

datatype minipro_call =
  Connect
  | Enable_notifications
  | Enter_remote_control_mode
  | Drive int int
  | Exit_remote_control_mode
  | Disable_notifications
  | Release

fun is_drive :: "minipro_call \<Rightarrow> bool" where
  "is_drive (Drive t s) = True"
| "is_drive c = False"

text \<open>
  The \<open>while (!should_exit)\<close> loop of \<open>main\<close>. The first argument is the flag as the loop
  test reads it. Each element of the list is one pass through the body: whether SIGINT is
  delivered during that pass, and the state of the poller that the pass reads. The result
  is \<open>None\<close> when the list ends with the flag still clear: the loop is still running.
  Otherwise it is the exception that left the loop, if any, and the calls made so far.
\<close>

fun control_loop ::
  "bool \<Rightarrow> (bool \<times> 'cb joystick) list \<Rightarrow> minipro_call list
     \<Rightarrow> (failure option \<times> minipro_call list) option" where
  "control_loop True ticks tr = Some (None, tr)"
| "control_loop False [] tr = None"
| "control_loop False ((sig, js) # ticks) tr =
     (case loop_body js of
        Inl e \<Rightarrow> Some (Some e, tr)
      | Inr (throttle, steering) \<Rightarrow>
          control_loop (if sig then signal_handler SIGINT False else False) ticks
            (tr @ [Drive throttle steering]))"

text \<open>
  \<open>main\<close>, from the construction of \<open>minipro\<close> on: the return code and the calls made.
  \<open>sig0\<close> says whether SIGINT is delivered before the first loop test, \<open>joystick\<close> is
  the outcome of constructing the controller.
\<close>

definition main ::
  "bool \<Rightarrow> failure + 'cb joystick \<Rightarrow> (bool \<times> 'cb joystick) list
     \<Rightarrow> (int \<times> minipro_call list) option" where
  "main sig0 joystick ticks =
     (case joystick of
        Inl e \<Rightarrow>
          Some (- 1, [Connect, Enable_notifications, Enter_remote_control_mode, Release])
      | Inr j \<Rightarrow>
         (case control_loop (if sig0 then signal_handler SIGINT False else False) ticks
                 [Connect, Enable_notifications, Enter_remote_control_mode] of
            None \<Rightarrow> None
          | Some (Some e, tr) \<Rightarrow> Some (- 1, tr @ [Release])
          | Some (None, tr) \<Rightarrow>
              Some (0, tr @ [Drive 0 0, Exit_remote_control_mode, Disable_notifications,
                             Release])))"

section \<open>The GATT client (src/bluetooth/le_client.cpp)\<close>

subsection \<open>Console output\<close>

text \<open>
  What \<open>printf\<close> writes to the standard output, in order. \<open>Text\<close> is literal
  characters. \<open>bluetooth::utils::to_string\<close> is not among the sources, so the characters
  that \<open>%s\<close> prints for it stay symbolic: \<open>To_string c\<close> is the name of the code
  \<open>c\<close>.
\<close>

datatype out_item = Text string | To_string int

definition digits :: string where
  "digits = ''0123456789abcdef''"

text \<open>\<open>%u\<close>, \<open>%d\<close> and \<open>%02x\<close> (of a value below 256).\<close>

fun dec :: "nat \<Rightarrow> string" where
  "dec n = (if n < 10 then [digits ! n] else dec (n div 10) @ [digits ! (n mod 10)])"

declare dec.simps [simp del]

definition dec_int :: "int \<Rightarrow> string" where
  "dec_int i = (if i < 0 then CHR ''-'' # dec (nat (- i)) else dec (nat i))"

definition hex02 :: "nat \<Rightarrow> string" where
  "hex02 n = [digits ! (n div 16), digits ! (n mod 16)]"

subsection \<open>The completion slot\<close>

text \<open>
  \<open>std::promise<int>\<close> with its future: \<open>Unset\<close> until \<open>set_value\<close> stores a value; a
  second \<open>set_value\<close> throws \<open>std::future_error\<close>.
\<close>

datatype 'a promise = Unset | Ready 'a

definition set_value :: "'a promise \<Rightarrow> 'a \<Rightarrow> failure + 'a promise" where
  "set_value p v = (case p of Unset \<Rightarrow> Inr (Ready v) | Ready w \<Rightarrow> Inl Future_error)"

text \<open>
  \<open>future.get()\<close> in the issuing thread, while the event thread runs the completion
  handler \<open>cb\<close> on the completions that the collaborator delivers, in order. The handler
  works on the promise and the console. \<open>get\<close> returns the value as soon as the promise is
  set, and the operation that owns the promise returns with it, so later completions are
  not part of the call. \<open>None\<close>: the completions are used up and the promise is still
  unset, so \<open>get\<close> never returns.
\<close>

fun future_get ::
  "('c \<Rightarrow> int promise \<times> out_item list \<Rightarrow> failure + int promise \<times> out_item list)
     \<Rightarrow> 'c list \<Rightarrow> int promise \<times> out_item list
     \<Rightarrow> (failure + int \<times> out_item list) option" where
  "future_get cb cs (Ready v, out) = Some (Inr (v, out))"
| "future_get cb [] (Unset, out) = None"
| "future_get cb (c # cs) (Unset, out) =
     (case cb c (Unset, out) of
        Inl e \<Rightarrow> Some (Inl e)
      | Inr st \<Rightarrow> future_get cb cs st)"

subsection \<open>The client\<close>

text \<open>
  The calls that the client makes on the collaborator (the \<open>bt_gatt_client_*\<close> functions
  of the external stack), recorded in order with their arguments.
\<close>

datatype gatt_call =
  Read_value u16
  | Read_long_value u16 u16
  | Write_long_value bool u16 u16 "u8 list"
  | Prepare_write u32 u16 u16 "u8 list"
  | Write_execute u32
  | Cancel u32

text \<open>
  Modelled from the spec: \<open>bluetooth/le_client.hpp\<close> is not among the sources. The only
  member that the operations below read or write is the open session id, an
  \<open>unsigned int\<close> (it is compared with one and printed with \<open>%u\<close>), 0 when no session
  is open. \<open>gatt_calls\<close> and \<open>stdout\<close> are the two effects on the outside.
\<close>

record le_client =
  reliable_session_id :: u32
  gatt_calls :: "gatt_call list"
  stdout :: "out_item list"

definition printf :: "le_client \<Rightarrow> out_item list \<Rightarrow> le_client" where
  "printf s items = s\<lparr>stdout := stdout s @ items\<rparr>"

definition call :: "le_client \<Rightarrow> gatt_call \<Rightarrow> le_client" where
  "call s c = s\<lparr>gatt_calls := gatt_calls s @ [c]\<rparr>"

text \<open>
  \<open>LEClient::read_cb\<close>, a static function of the completion: it writes to the console
  and nothing else. \<open>value\<close> holds the \<open>length\<close> bytes.
\<close>

definition read_cb :: "bool \<Rightarrow> u8 \<Rightarrow> u8 list \<Rightarrow> out_item list \<Rightarrow> out_item list" where
  "read_cb success att_ecode value out =
     (if \<not> success then
        out @ [Text ''Read request failed: '', To_string (uint att_ecode),
               Text ('' (0x'' @ hex02 (unat att_ecode) @ '')'' @ [CHR 0x0A])]
      else if length value = 0 then
        out @ [Text (CHR 0x0A # ''Read value''), Text ('': 0 bytes'' @ [CHR 0x0A])]
      else
        out @ [Text (CHR 0x0A # ''Read value''),
               Text ('' ('' @ dec (length value) @ '' bytes): '')]
            @ map (\<lambda>b. Text (hex02 (unat b) @ '' '')) value
            @ [Text [CHR 0x0A]])"

text \<open>
  \<open>LEClient::read_value\<close> and \<open>LEClient::read_long_value\<close>, both \<open>void\<close>. \<open>started\<close>
  is whether the collaborator's call returns a request id other than 0. The completion
  comes later, to \<open>read_cb\<close> in the event thread.
\<close>

definition read_value :: "bool \<Rightarrow> u16 \<Rightarrow> le_client \<Rightarrow> le_client" where
  "read_value started handle s =
     (let s1 = call s (Read_value handle)
      in if \<not> started then printf s1 [Text (''Failed to initiate read value'' @ [CHR 0x0A])]
         else s1)"

definition read_long_value :: "bool \<Rightarrow> u16 \<Rightarrow> u16 \<Rightarrow> le_client \<Rightarrow> le_client" where
  "read_long_value started handle offset s =
     (let s1 = call s (Read_long_value handle offset)
      in if \<not> started
         then printf s1 [Text (''Failed to initiate read long value'' @ [CHR 0x0A])]
         else s1)"

text \<open>
  \<open>LEClient::write_long_cb\<close>: \<open>user_data\<close> points to the promise of the pending call.
\<close>

definition write_long_cb ::
  "bool \<Rightarrow> bool \<Rightarrow> u8 \<Rightarrow> int promise \<times> out_item list
     \<Rightarrow> failure + int promise \<times> out_item list" where
  "write_long_cb success reliable_error att_ecode st =
     (case st of (promise, out) \<Rightarrow>
        if success then
          (case set_value promise 0 of Inl e \<Rightarrow> Inl e | Inr p \<Rightarrow> Inr (p, out))
        else if reliable_error then
          Inr (promise, out @ [Text (''Reliable write not verified'' @ [CHR 0x0A])])
        else
          (case set_value promise (uint att_ecode) of
             Inl e \<Rightarrow> Inl e
           | Inr p \<Rightarrow> Inr (p, out)))"

text \<open>
  \<open>LEClient::write_long_value\<close>. The collaborator's part is the pair \<open>reply\<close>: whether
  its call returns a request id other than 0, and the completions it then delivers to
  \<open>write_long_cb\<close>, each (success, reliable_error, att_ecode). \<open>None\<close>: the call never
  returns.
\<close>

definition write_long_value ::
  "bool \<times> (bool \<times> bool \<times> u8) list \<Rightarrow> bool \<Rightarrow> u16 \<Rightarrow> u16 \<Rightarrow> u8 list \<Rightarrow> le_client
     \<Rightarrow> (failure + le_client) option" where
  "write_long_value reply reliable_writes handle offset value s =
     (let s1 = call s (Write_long_value reliable_writes handle offset value);
          s2 = (if \<not> fst reply
                then printf s1 [Text (''Failed to initiate bt_gatt_client_write_long_value''
                                      @ [CHR 0x0A])]
                else s1)
      in case future_get (\<lambda>(success, reliable_error, att_ecode).
                write_long_cb success reliable_error att_ecode) (snd reply)
              (Unset, stdout s2) of
           None \<Rightarrow> None
         | Some (Inl e) \<Rightarrow> Some (Inl e)
         | Some (Inr (rc, out)) \<Rightarrow>
             (let s3 = s2\<lparr>stdout := out\<rparr>
              in if rc \<noteq> 0
                 then Some (Inr (printf s3
                        [Text ''bt_gatt_client_write_long_value failed: '', To_string rc,
                         Text ('' (0x'' @ hex02 (nat rc) @ '')'' @ [CHR 0x0A])]))
                 else Some (Inr s3)))"

text \<open>
  \<open>LEClient::write_prepare\<close>. \<open>ret\<close> is what \<open>bt_gatt_client_prepare_write\<close> returns
  when it is called: the session id, 0 on failure. The parameter \<open>id\<close> of the source is
  \<open>sid\<close> here. \<open>%d\<close> prints the stored id as a signed number.
\<close>

definition write_prepare ::
  "u32 \<Rightarrow> u32 \<Rightarrow> u16 \<Rightarrow> u16 \<Rightarrow> u8 list \<Rightarrow> le_client \<Rightarrow> le_client" where
  "write_prepare ret sid handle offset value s =
     (if reliable_session_id s \<noteq> sid then
        printf s [Text (''Session id != Ongoing session id ('' @ dec (unat sid) @ ''!=''
                        @ dec (unat (reliable_session_id s)) @ '')'' @ [CHR 0x0A])]
      else
        (let s1 = (call s (Prepare_write sid handle offset value))\<lparr>reliable_session_id := ret\<rparr>;
             s2 = (if reliable_session_id s1 = 0
                   then printf s1 [Text (''Failed to proceed prepare write'' @ [CHR 0x0A])]
                   else s1)
         in printf s2 [Text (''Prepare write success.'' @ [CHR 0x0A] @ ''Session id: ''
                             @ dec_int (sint (reliable_session_id s2))
                             @ '' to be used on next write'' @ [CHR 0x0A])]))"

text \<open>
  \<open>LEClient::write_cb\<close> and \<open>LEClient::write_execute\<close>. \<open>reply\<close> is the collaborator's
  part when \<open>execute\<close> is true: whether \<open>bt_gatt_client_write_execute\<close> returns a request
  id other than 0, and the completions it then delivers to \<open>write_cb\<close>, each
  (success, att_ecode). The result of \<open>bt_gatt_client_cancel\<close> is not read.
  \<open>None\<close>: the call never returns.
\<close>

definition write_cb ::
  "bool \<Rightarrow> u8 \<Rightarrow> int promise \<times> out_item list \<Rightarrow> failure + int promise \<times> out_item list" where
  "write_cb success att_ecode st =
     (case st of (promise, out) \<Rightarrow>
        (case set_value promise (if success then 0 else uint att_ecode) of
           Inl e \<Rightarrow> Inl e
         | Inr p \<Rightarrow> Inr (p, out)))"

definition write_execute ::
  "bool \<times> (bool \<times> u8) list \<Rightarrow> u32 \<Rightarrow> bool \<Rightarrow> le_client \<Rightarrow> (failure + le_client) option" where
  "write_execute reply session_id execute s =
     (if execute then
        (let s1 = call s (Write_execute session_id);
             s2 = (if \<not> fst reply
                   then printf s1 [Text (''Failed to proceed write execute'' @ [CHR 0x0A])]
                   else s1)
         in case future_get (\<lambda>(success, att_ecode). write_cb success att_ecode) (snd reply)
                 (Unset, stdout s2) of
              None \<Rightarrow> None
            | Some (Inl e) \<Rightarrow> Some (Inl e)
            | Some (Inr (rc, out)) \<Rightarrow>
                (let s3 = s2\<lparr>stdout := out\<rparr>;
                     s4 = (if rc \<noteq> 0
                           then printf s3 [Text ''Write failed: '', To_string rc,
                                  Text ('' (0x'' @ hex02 (nat rc) @ '')'' @ [CHR 0x0A])]
                           else s3)
                 in Some (Inr (s4\<lparr>reliable_session_id := 0\<rparr>))))
      else Some (Inr ((call s (Cancel session_id))\<lparr>reliable_session_id := 0\<rparr>)))"

section \<open>Properties of the control loop\<close>

lemma sign_eq_sgn: "v \<noteq> 0 \<Longrightarrow> sign v = sgn v"
  by (simp add: sign_def sgn_if)

lemma deadzone_fits_int:
  "- (2 ^ 31) \<le> deadzone zero_threshold_x (- sint (w :: s16))
     \<and> deadzone zero_threshold_x (- sint w) < 2 ^ 31"
proof -
  have "sint w < 2 ^ 15" "- (2 ^ 15) \<le> sint w"
    using sint_lt [of w] sint_ge [of w] by simp_all
  then show ?thesis
    by (auto simp: deadzone_def zero_threshold_x_def sign_def)
qed

lemma loop_body_deadzone:
  "fst (get_axis_state js Axis_LeftThumbstick) = Inr a \<Longrightarrow>
   loop_body js = Inr (deadzone zero_threshold_x (- sint (axis_y a)),
                       damp (deadzone zero_threshold_y (- sint (axis_x a))))"
  by (simp add: loop_body_def deadzone_def damp_def Let_def)

lemma deadzone_cases:
  assumes "0 < T"
  shows "(\<bar>v\<bar> < T \<longrightarrow> deadzone T v = 0)
       \<and> (T \<le> \<bar>v\<bar> \<longrightarrow> deadzone T v = sign v * (\<bar>v\<bar> - T) \<and> sign v = sgn v)
       \<and> (\<bar>v\<bar> = T \<longrightarrow> deadzone T v = 0)
       \<and> (T \<le> \<bar>v\<bar> \<and> \<bar>v\<bar> \<le> \<bar>w\<bar> \<longrightarrow> \<bar>deadzone T v\<bar> \<le> \<bar>deadzone T w\<bar>)
       \<and> (T \<le> \<bar>v\<bar> \<and> \<bar>v\<bar> < \<bar>w\<bar> \<longrightarrow> \<bar>deadzone T v\<bar> < \<bar>deadzone T w\<bar>)"
proof -
  have mag: "\<bar>deadzone T u\<bar> = \<bar>u\<bar> - T" if "T \<le> \<bar>u\<bar>" for u
    using that assms by (simp add: deadzone_def sign_def abs_mult)
  have a: "\<bar>v\<bar> < T \<longrightarrow> deadzone T v = 0"
    by (simp add: deadzone_def)
  have b: "T \<le> \<bar>v\<bar> \<longrightarrow> deadzone T v = sign v * (\<bar>v\<bar> - T) \<and> sign v = sgn v"
    using assms by (auto simp: deadzone_def sign_def sgn_if)
  have c: "\<bar>v\<bar> = T \<longrightarrow> deadzone T v = 0"
    by (auto simp: deadzone_def)
  have d: "T \<le> \<bar>v\<bar> \<and> \<bar>v\<bar> \<le> \<bar>w\<bar> \<longrightarrow> \<bar>deadzone T v\<bar> \<le> \<bar>deadzone T w\<bar>"
    using mag [of v] mag [of w] by auto
  have e: "T \<le> \<bar>v\<bar> \<and> \<bar>v\<bar> < \<bar>w\<bar> \<longrightarrow> \<bar>deadzone T v\<bar> < \<bar>deadzone T w\<bar>"
    using mag [of v] mag [of w] by auto
  from a b c d e show ?thesis by blast
qed

lemma abs_damp: "\<bar>damp s\<bar> = \<bar>s\<bar> div 10"
  by (simp add: damp_def abs_mult sgn_if)

text \<open>
  C4. What the control loop computes. In a pass that reads the axis state \<open>a\<close>, the loop
  body passes to \<open>drive\<close> the deadzone transform of the throttle \<open>th = -a.y\<close> with the
  threshold \<open>zero_threshold_x\<close>, and the damped deadzone transform of the steering
  \<open>st = -a.x\<close> with \<open>zero_threshold_y\<close>; both thresholds are positive. So the throttle
  passed on is 0 when \<open>|th|\<close> is below the threshold and \<open>sign th * (|th| - threshold)\<close>
  otherwise, it is 0 at the threshold, and against a second pass with the input \<open>th2\<close> its
  size grows with \<open>|th|\<close> above the threshold, strictly; the steering is the same before
  the damping, whose division keeps the order but not its strictness. The transform does
  this for every integer \<open>v\<close> and every positive threshold \<open>T\<close>, and the source's
  \<open>sign\<close> is the mathematical sign wherever \<open>|v| \<ge> T\<close>.
\<close>

theorem deadzone_transform:
  assumes "0 < T"
    and "fst (get_axis_state js Axis_LeftThumbstick) = Inr a"
    and "fst (get_axis_state js2 Axis_LeftThumbstick) = Inr a2"
    and "th = - sint (axis_y a)" and "st = - sint (axis_x a)"
    and "th2 = - sint (axis_y a2)" and "st2 = - sint (axis_x a2)"
  shows "\<exists>throttle steering throttle2 steering2.
           loop_body js = Inr (throttle, steering)
         \<and> loop_body js2 = Inr (throttle2, steering2)
         \<and> throttle = deadzone zero_threshold_x th
         \<and> steering = damp (deadzone zero_threshold_y st)
         \<and> 0 < zero_threshold_x \<and> 0 < zero_threshold_y
         \<and> (\<bar>th\<bar> < zero_threshold_x \<longrightarrow> throttle = 0)
         \<and> (zero_threshold_x \<le> \<bar>th\<bar> \<longrightarrow>
               throttle = sign th * (\<bar>th\<bar> - zero_threshold_x) \<and> sign th = sgn th)
         \<and> (\<bar>th\<bar> = zero_threshold_x \<longrightarrow> throttle = 0)
         \<and> (zero_threshold_x \<le> \<bar>th\<bar> \<and> \<bar>th\<bar> \<le> \<bar>th2\<bar> \<longrightarrow> \<bar>throttle\<bar> \<le> \<bar>throttle2\<bar>)
         \<and> (zero_threshold_x \<le> \<bar>th\<bar> \<and> \<bar>th\<bar> < \<bar>th2\<bar> \<longrightarrow> \<bar>throttle\<bar> < \<bar>throttle2\<bar>)
         \<and> (\<bar>st\<bar> < zero_threshold_y \<longrightarrow> steering = 0)
         \<and> (zero_threshold_y \<le> \<bar>st\<bar> \<longrightarrow>
               steering = damp (sign st * (\<bar>st\<bar> - zero_threshold_y)) \<and> sign st = sgn st)
         \<and> (\<bar>st\<bar> = zero_threshold_y \<longrightarrow> steering = 0)
         \<and> (zero_threshold_y \<le> \<bar>st\<bar> \<and> \<bar>st\<bar> \<le> \<bar>st2\<bar> \<longrightarrow> \<bar>steering\<bar> \<le> \<bar>steering2\<bar>)
         \<and> (\<bar>v\<bar> < T \<longrightarrow> deadzone T v = 0)
         \<and> (T \<le> \<bar>v\<bar> \<longrightarrow> deadzone T v = sign v * (\<bar>v\<bar> - T) \<and> sign v = sgn v)
         \<and> (\<bar>v\<bar> = T \<longrightarrow> deadzone T v = 0)
         \<and> (T \<le> \<bar>v\<bar> \<and> \<bar>v\<bar> \<le> \<bar>w\<bar> \<longrightarrow> \<bar>deadzone T v\<bar> \<le> \<bar>deadzone T w\<bar>)
         \<and> (T \<le> \<bar>v\<bar> \<and> \<bar>v\<bar> < \<bar>w\<bar> \<longrightarrow> \<bar>deadzone T v\<bar> < \<bar>deadzone T w\<bar>)"
proof -
  let ?t = "deadzone zero_threshold_x th" and ?s = "damp (deadzone zero_threshold_y st)"
  let ?t2 = "deadzone zero_threshold_x th2" and ?s2 = "damp (deadzone zero_threshold_y st2)"
  have px: "0 < zero_threshold_x" and py: "0 < zero_threshold_y"
    by (simp_all add: zero_threshold_x_def zero_threshold_y_def)
  have l1: "loop_body js = Inr (?t, ?s)"
    using loop_body_deadzone [OF assms(2)] assms(4,5) by simp
  have l2: "loop_body js2 = Inr (?t2, ?s2)"
    using loop_body_deadzone [OF assms(3)] assms(6,7) by simp
  note tx = deadzone_cases [OF px, of th th2]
  note ty = deadzone_cases [OF py, of st st2]
  have s0: "\<bar>st\<bar> < zero_threshold_y \<longrightarrow> ?s = 0"
    using ty by (auto simp: damp_def)
  have s1: "zero_threshold_y \<le> \<bar>st\<bar> \<longrightarrow>
              ?s = damp (sign st * (\<bar>st\<bar> - zero_threshold_y)) \<and> sign st = sgn st"
    using ty by auto
  have s2: "\<bar>st\<bar> = zero_threshold_y \<longrightarrow> ?s = 0"
    using ty by (auto simp: damp_def)
  have s3: "zero_threshold_y \<le> \<bar>st\<bar> \<and> \<bar>st\<bar> \<le> \<bar>st2\<bar> \<longrightarrow> \<bar>?s\<bar> \<le> \<bar>?s2\<bar>"
  proof
    assume "zero_threshold_y \<le> \<bar>st\<bar> \<and> \<bar>st\<bar> \<le> \<bar>st2\<bar>"
    then have "\<bar>deadzone zero_threshold_y st\<bar> \<le> \<bar>deadzone zero_threshold_y st2\<bar>"
      using ty by blast
    then show "\<bar>?s\<bar> \<le> \<bar>?s2\<bar>"
      by (simp add: abs_damp zdiv_mono1)
  qed
  note g = deadzone_cases [OF assms(1), of v w]
  show ?thesis
    apply (rule exI [of _ ?t])
    apply (rule exI [of _ ?s])
    apply (rule exI [of _ ?t2])
    apply (rule exI [of _ ?s2])
    apply (intro conjI)
    using l1 l2 px py tx s0 s1 s2 s3 g
    by blast+
qed

theorem deadzone_transform_witness:
  "(0::int) < 8000
   \<and> fst (get_axis_state
            \<lparr>num_axes = 1, num_buttons = 0, axis_map = [\<lparr>axis_x = 20000, axis_y = - 500\<rparr>],
              button_map = [] :: unit option list, invoked = []\<rparr> Axis_LeftThumbstick)
       = Inr \<lparr>axis_x = 20000, axis_y = - 500\<rparr>
   \<and> fst (get_axis_state
            \<lparr>num_axes = 1, num_buttons = 0, axis_map = [\<lparr>axis_x = 25000, axis_y = 8000\<rparr>],
              button_map = [] :: unit option list, invoked = []\<rparr> Axis_LeftThumbstick)
       = Inr \<lparr>axis_x = 25000, axis_y = 8000\<rparr>
   \<and> loop_body
        \<lparr>num_axes = 1, num_buttons = 0, axis_map = [\<lparr>axis_x = 20000, axis_y = - 500\<rparr>],
          button_map = [] :: unit option list, invoked = []\<rparr> = Inr (0, - 1200)
   \<and> loop_body
        \<lparr>num_axes = 1, num_buttons = 0, axis_map = [\<lparr>axis_x = 25000, axis_y = 8000\<rparr>],
          button_map = [] :: unit option list, invoked = []\<rparr> = Inr (0, - 1700)
   \<and> deadzone 8000 (- 20000) = sign (- 20000) * (\<bar>- 20000\<bar> - 8000)
   \<and> deadzone 8000 (- 20000) = - 12000
   \<and> deadzone 8000 (- 8000) = 0
   \<and> \<bar>deadzone 8000 (- 20000)\<bar> < \<bar>deadzone 8000 25000\<bar>"
proof -
  let ?j = "\<lparr>num_axes = 1, num_buttons = 0, axis_map = [\<lparr>axis_x = 20000, axis_y = - 500\<rparr>],
             button_map = [] :: unit option list, invoked = []\<rparr>"
  let ?j2 = "\<lparr>num_axes = 1, num_buttons = 0, axis_map = [\<lparr>axis_x = 25000, axis_y = 8000\<rparr>],
              button_map = [] :: unit option list, invoked = []\<rparr>"
  have g: "fst (get_axis_state ?j Axis_LeftThumbstick) = Inr \<lparr>axis_x = 20000, axis_y = - 500\<rparr>"
    by (simp add: get_axis_state_def Axis_LeftThumbstick_def array_get_def)
  have g2: "fst (get_axis_state ?j2 Axis_LeftThumbstick) = Inr \<lparr>axis_x = 25000, axis_y = 8000\<rparr>"
    by (simp add: get_axis_state_def Axis_LeftThumbstick_def array_get_def)
  have e: "(500 :: int) = - sint (axis_y \<lparr>axis_x = 20000, axis_y = - 500\<rparr>)"
    "(- 20000 :: int) = - sint (axis_x \<lparr>axis_x = 20000, axis_y = - 500\<rparr>)"
    "(- 8000 :: int) = - sint (axis_y \<lparr>axis_x = 25000, axis_y = 8000\<rparr>)"
    "(- 25000 :: int) = - sint (axis_x \<lparr>axis_x = 25000, axis_y = 8000\<rparr>)"
    by simp_all
  have p: "(0 :: int) < 8000"
    by simp
  from deadzone_transform [OF p g g2 e, of "- 20000" 25000]
       deadzone_transform [OF p g2 g e(3) e(4) e(1) e(2), of "- 8000" 0]
  show ?thesis
    using g g2
    by (auto simp: zero_threshold_x_def zero_threshold_y_def sign_def damp_def deadzone_def)
qed

section \<open>Properties of the joystick poller\<close>

lemma store_x_ok:
  "k < length (axis_map s) \<Longrightarrow>
   store_x s k v = Inr (s\<lparr>axis_map := (axis_map s)[k := (axis_map s ! k)\<lparr>axis_x := v\<rparr>]\<rparr>)"
  by (simp add: store_x_def array_get_def array_set_def)

lemma store_y_ok:
  "k < length (axis_map s) \<Longrightarrow>
   store_y s k v = Inr (s\<lparr>axis_map := (axis_map s)[k := (axis_map s ! k)\<lparr>axis_y := v\<rparr>]\<rparr>)"
  by (simp add: store_y_def array_get_def array_set_def)

lemma handle_axis_event:
  assumes "ev_type ev = JS_EVENT_AXIS" and "4 \<le> length (axis_map s)"
  shows "handle_event s ev =
           Inr (s\<lparr>axis_map := spec_route (ev_number ev) (ev_value ev) (axis_map s)\<rparr>)"
proof -
  have ne: "axis_map s \<noteq> []"
    using assms(2) by auto
  show ?thesis
    using assms ne
    by (simp add: handle_event_def JS_EVENT_AXIS_def JS_EVENT_BUTTON_def store_x_ok store_y_ok
        spec_route_def spec_axis_table_def put_def)
qed

lemma spec_route_other:
  "(\<forall>c. spec_axis_table n \<noteq> Some (j, c)) \<Longrightarrow> spec_route n v m ! j = m ! j"
  by (auto simp: spec_route_def split: option.splits)

lemma spec_route_length: "length (spec_route n v m) = length m"
  by (auto simp: spec_route_def split: option.splits)

text \<open>
  C5. For an axis event, when the array holds the four slots that the switch addresses,
  the poller succeeds and does what the spec's table says: for raw numbers 0 to 7 the
  addressed coordinate of the addressed slot becomes the event's value, its other
  coordinate and every other slot stay as they were; for any other raw number the array is
  unchanged; and in every case the counts, the callback table and the record of calls are
  unchanged.
\<close>

theorem axis_routing:
  assumes "ev_type ev = JS_EVENT_AXIS" and "4 \<le> length (axis_map s)"
  shows "\<exists>s'. handle_event s ev = Inr s'
           \<and> num_axes s' = num_axes s \<and> num_buttons s' = num_buttons s
           \<and> button_map s' = button_map s \<and> invoked s' = invoked s
           \<and> length (axis_map s') = length (axis_map s)
           \<and> (case spec_axis_table (ev_number ev) of
                 None \<Rightarrow> axis_map s' = axis_map s
               | Some (k, c) \<Rightarrow>
                   k < 4
                   \<and> axis_map s' ! k =
                       (case c of X \<Rightarrow> (axis_map s ! k)\<lparr>axis_x := ev_value ev\<rparr>
                                | Y \<Rightarrow> (axis_map s ! k)\<lparr>axis_y := ev_value ev\<rparr>)
                   \<and> (\<forall>j. j \<noteq> k \<longrightarrow> axis_map s' ! j = axis_map s ! j))"
proof -
  let ?m = "spec_route (ev_number ev) (ev_value ev) (axis_map s)"
  have h: "handle_event s ev = Inr (s\<lparr>axis_map := ?m\<rparr>)"
    using assms by (rule handle_axis_event)
  have t: "case spec_axis_table (ev_number ev) of
                 None \<Rightarrow> ?m = axis_map s
               | Some (k, c) \<Rightarrow>
                   k < 4
                   \<and> ?m ! k =
                       (case c of X \<Rightarrow> (axis_map s ! k)\<lparr>axis_x := ev_value ev\<rparr>
                                | Y \<Rightarrow> (axis_map s ! k)\<lparr>axis_y := ev_value ev\<rparr>)
                   \<and> (\<forall>j. j \<noteq> k \<longrightarrow> ?m ! j = axis_map s ! j)"
  proof -
    have ne: "axis_map s \<noteq> []"
      using assms(2) by auto
    show ?thesis
      using assms(2) ne
      by (auto simp: spec_route_def spec_axis_table_def put_def
          split: option.splits coord.splits)
  qed
  show ?thesis
    using h t by (auto simp: spec_route_length split: option.splits)
qed


lemma init_axes_Inr:
  "init_axes i k m = Inr m' \<Longrightarrow>
     length m' = length m \<and> (k = 0 \<or> i + k \<le> length m)
     \<and> (\<forall>j. j < i \<or> i + k \<le> j \<longrightarrow> m' ! j = m ! j)
     \<and> (\<forall>j. i \<le> j \<and> j < i + k \<longrightarrow> m' ! j = \<lparr>axis_x = 0, axis_y = 0\<rparr>)"
proof (induction k arbitrary: i m)
  case 0
  then show ?case by auto
next
  case (Suc k)
  from Suc.prems have lt: "i < length m"
    by (auto simp: array_get_def split: if_splits)
  let ?m1 = "m[i := (m ! i)\<lparr>axis_x := 0, axis_y := 0\<rparr>]"
  from Suc.prems lt have r: "init_axes (Suc i) k ?m1 = Inr m'"
    by (simp add: array_get_def array_set_def)
  note ih = Suc.IH [OF r]
  have z: "(m ! i)\<lparr>axis_x := 0, axis_y := 0\<rparr> = \<lparr>axis_x = 0, axis_y = 0\<rparr>"
    by simp
  show ?case
  proof (intro conjI allI impI)
    show "length m' = length m" using ih by simp
    show "Suc k = 0 \<or> i + Suc k \<le> length m" using ih lt by auto
  next
    fix j assume "j < i \<or> i + Suc k \<le> j"
    then have "m' ! j = ?m1 ! j" and "j \<noteq> i" using ih by auto
    then show "m' ! j = m ! j" by simp
  next
    fix j assume a: "i \<le> j \<and> j < i + Suc k"
    show "m' ! j = \<lparr>axis_x = 0, axis_y = 0\<rparr>"
    proof (cases "j = i")
      case True
      then have "m' ! j = ?m1 ! i" using ih by auto
      then show ?thesis using lt z by simp
    next
      case False
      then show ?thesis using a ih by auto
    qed
  qed
qed

lemma init_buttons_Inr:
  "init_buttons i k m = Inr m' \<Longrightarrow>
     length m' = length m \<and> (k = 0 \<or> i + k \<le> length m)
     \<and> (\<forall>j. j < i \<or> i + k \<le> j \<longrightarrow> m' ! j = m ! j)
     \<and> (\<forall>j. i \<le> j \<and> j < i + k \<longrightarrow> m' ! j = None)"
proof (induction k arbitrary: i m)
  case 0
  then show ?case by auto
next
  case (Suc k)
  from Suc.prems have lt: "i < length m"
    by (auto simp: array_set_def split: if_splits)
  let ?m1 = "m[i := None]"
  from Suc.prems lt have r: "init_buttons (Suc i) k ?m1 = Inr m'"
    by (simp add: array_set_def)
  note ih = Suc.IH [OF r]
  show ?case
  proof (intro conjI allI impI)
    show "length m' = length m" using ih by simp
    show "Suc k = 0 \<or> i + Suc k \<le> length m" using ih lt by auto
  next
    fix j assume "j < i \<or> i + Suc k \<le> j"
    then have "m' ! j = ?m1 ! j" and "j \<noteq> i" using ih by auto
    then show "m' ! j = m ! j" by simp
  next
    fix j assume a: "i \<le> j \<and> j < i + Suc k"
    show "m' ! j = None"
    proof (cases "j = i")
      case True
      then have "m' ! j = ?m1 ! i" using ih by auto
      then show ?thesis using lt by simp
    next
      case False
      then show ?thesis using a ih by auto
    qed
  qed
qed

lemma Joystick_Inr:
  assumes "Joystick open_ok axes buttons am bm = Inr s"
  shows "open_ok \<and> axes = Some (num_axes s) \<and> buttons = Some (num_buttons s)
         \<and> init_axes 0 (unat (num_axes s)) am = Inr (axis_map s)
         \<and> init_buttons 0 (unat (num_buttons s)) bm = Inr (button_map s)
         \<and> invoked s = []"
  using assms
  by (auto simp: Joystick_def split: if_splits option.splits sum.splits)

lemma handle_event_counts:
  "handle_event s ev = Inr s' \<Longrightarrow> num_axes s' = num_axes s \<and> num_buttons s' = num_buttons s"
  by (auto simp: handle_event_def store_x_def store_y_def
      split: if_splits sum.splits option.splits)

lemma input_thread_func_counts:
  "input_thread_func s rs = Inr s' \<Longrightarrow>
     num_axes s' = num_axes s \<and> num_buttons s' = num_buttons s"
proof (induction s rs rule: input_thread_func.induct)
  case (1 s)
  then show ?case by simp
next
  case (2 s rs)
  then show ?case by simp
next
  case (3 s ev rs)
  then show ?case
    by (auto split: sum.splits dest: handle_event_counts)
qed

text \<open>
  C7. In every state of the poller, \<open>get_axis_state\<close> with an index at or above the axis
  count, and \<open>set_button_callback\<close> with an index at or above the button count, throw the
  out-of-range error and leave the whole object as it was. The counts are the ones queried
  by the constructor, and neither the poller thread nor the two operations change them.
\<close>

theorem index_out_of_range_rejected:
  "(unat (num_axes s) \<le> unat axis \<longrightarrow>
      get_axis_state s axis =
        (Inl (Runtime_error ''Joystick: get_axis_state: axis value out of range''), s))
   \<and> (unat (num_buttons s) \<le> unat button \<longrightarrow>
      set_button_callback s button cb =
        (Inl (Runtime_error ''Joystick: set_button_callback: button value out of range''), s))
   \<and> (Joystick open_ok (Some na) (Some nb) am bm = Inr s \<longrightarrow>
        num_axes s = na \<and> num_buttons s = nb)
   \<and> (input_thread_func s rs = Inr s' \<longrightarrow>
        num_axes s' = num_axes s \<and> num_buttons s' = num_buttons s)
   \<and> num_axes (snd (set_button_callback s button cb)) = num_axes s
   \<and> num_buttons (snd (set_button_callback s button cb)) = num_buttons s
   \<and> snd (get_axis_state s axis) = s"
proof -
  have a: "unat (num_axes s) \<le> unat axis \<longrightarrow>
      get_axis_state s axis =
        (Inl (Runtime_error ''Joystick: get_axis_state: axis value out of range''), s)"
    by (simp add: get_axis_state_def)
  have b: "unat (num_buttons s) \<le> unat button \<longrightarrow>
      set_button_callback s button cb =
        (Inl (Runtime_error ''Joystick: set_button_callback: button value out of range''), s)"
    by (simp add: set_button_callback_def)
  have c: "Joystick open_ok (Some na) (Some nb) am bm = Inr s \<longrightarrow>
        num_axes s = na \<and> num_buttons s = nb"
    using Joystick_Inr [of open_ok "Some na" "Some nb" am bm s] by auto
  have d: "input_thread_func s rs = Inr s' \<longrightarrow>
        num_axes s' = num_axes s \<and> num_buttons s' = num_buttons s"
    using input_thread_func_counts [of s rs s'] by blast
  have e: "num_axes (snd (set_button_callback s button cb)) = num_axes s"
    by (simp add: set_button_callback_def split: sum.splits)
  have f: "num_buttons (snd (set_button_callback s button cb)) = num_buttons s"
    by (simp add: set_button_callback_def split: sum.splits)
  have g: "snd (get_axis_state s axis) = s"
    by (simp add: get_axis_state_def split: sum.splits)
  from a b c d e f g show ?thesis by blast
qed

text \<open>
  C10. After the constructor has initialised the first \<open>nb\<close> entries of the callback
  table, a button event whose number is \<open>nb\<close> or more is not rejected: the poller reads
  the entry at that number, which the constructor never wrote (the array's earlier
  content), or reads beyond the array; \<open>set_button_callback\<close> rejects the same index.
\<close>

theorem button_event_unchecked:
  assumes "Joystick open_ok (Some na) (Some nb) am bm = Inr s"
    and "ev_type ev = JS_EVENT_BUTTON"
    and "unat nb \<le> unat (ev_number ev)"
  shows "fst (set_button_callback s (ev_number ev) cb) =
           Inl (Runtime_error ''Joystick: set_button_callback: button value out of range'')
       \<and> handle_event s ev =
           (if unat (ev_number ev) < length bm
            then (case bm ! unat (ev_number ev) of
                    None \<Rightarrow> Inr s
                  | Some f \<Rightarrow> Inr (s\<lparr>invoked := [(f, ev_value ev \<noteq> 0)]\<rparr>))
            else Inl Out_of_bounds)"
proof -
  from Joystick_Inr [OF assms(1)]
  have nb: "num_buttons s = nb" and ib: "init_buttons 0 (unat nb) bm = Inr (button_map s)"
    and inv: "invoked s = []"
    by auto
  from init_buttons_Inr [OF ib]
  have len: "length (button_map s) = length bm"
    and same: "button_map s ! unat (ev_number ev) = bm ! unat (ev_number ev)"
    using assms(3) by auto
  have 1: "fst (set_button_callback s (ev_number ev) cb) =
           Inl (Runtime_error ''Joystick: set_button_callback: button value out of range'')"
    using nb assms(3) by (simp add: set_button_callback_def)
  have 2: "handle_event s ev =
           (if unat (ev_number ev) < length bm
            then (case bm ! unat (ev_number ev) of
                    None \<Rightarrow> Inr s
                  | Some f \<Rightarrow> Inr (s\<lparr>invoked := [(f, ev_value ev \<noteq> 0)]\<rparr>))
            else Inl Out_of_bounds)"
    using assms(2) len same inv
    by (simp add: handle_event_def array_get_def split: option.splits)
  from 1 2 show ?thesis by blast
qed


text \<open>
  C6. After a constructor that reports 4 axes, the poller processes an axis-0 event of
  value 20000 and an axis-1 event of value -500; then \<open>get_axis_state(0)\<close> gives
  (20000, -500), the throttle -(-500) = 500 is mapped to 0 by the deadzone, the steering
  -(20000) = -20000 to -12000 by the deadzone and to -1200 by the damping, and the loop
  body passes (0, -1200) to \<open>drive\<close>.
\<close>

theorem end_to_end_scenario:
  assumes "Joystick True (Some 4) (Some nb) am bm = Inr s0"
  shows "input_thread_func s0
           [Some \<lparr>ev_time = t0, ev_value = 20000, ev_type = JS_EVENT_AXIS, ev_number = 0\<rparr>,
            Some \<lparr>ev_time = t1, ev_value = - 500, ev_type = JS_EVENT_AXIS, ev_number = 1\<rparr>]
           = Inr (s0\<lparr>axis_map := (axis_map s0)[0 := \<lparr>axis_x = 20000, axis_y = - 500\<rparr>]\<rparr>)
       \<and> fst (get_axis_state
                 (s0\<lparr>axis_map := (axis_map s0)[0 := \<lparr>axis_x = 20000, axis_y = - 500\<rparr>]\<rparr>)
                 0)
           = Inr \<lparr>axis_x = 20000, axis_y = - 500\<rparr>
       \<and> - sint (- 500 :: s16) = 500
       \<and> deadzone zero_threshold_x 500 = 0
       \<and> - sint (20000 :: s16) = - 20000
       \<and> deadzone zero_threshold_y (- 20000) = - 12000
       \<and> damp (- 12000) = - 1200
       \<and> loop_body (s0\<lparr>axis_map := (axis_map s0)[0 := \<lparr>axis_x = 20000, axis_y = - 500\<rparr>]\<rparr>)
           = Inr (0, - 1200)"
proof -
  let ?e0 = "\<lparr>ev_time = t0, ev_value = 20000, ev_type = JS_EVENT_AXIS, ev_number = 0\<rparr>"
  let ?e1 = "\<lparr>ev_time = t1, ev_value = - 500, ev_type = JS_EVENT_AXIS, ev_number = 1\<rparr>"
  let ?a = "\<lparr>axis_x = 20000, axis_y = - 500\<rparr> :: AxisState"
  let ?s2 = "s0\<lparr>axis_map := (axis_map s0)[0 := ?a]\<rparr>"
  from Joystick_Inr [OF assms]
  have na: "num_axes s0 = 4" and ia: "init_axes 0 (unat (4 :: u8)) am = Inr (axis_map s0)"
    by auto
  from init_axes_Inr [OF ia]
  have len: "4 \<le> length (axis_map s0)"
    and z: "axis_map s0 ! 0 = \<lparr>axis_x = 0, axis_y = 0\<rparr>"
    by auto
  have ne: "axis_map s0 \<noteq> []"
    using len by auto
  let ?s1 = "s0\<lparr>axis_map := (axis_map s0)[0 := \<lparr>axis_x = 20000, axis_y = 0\<rparr>]\<rparr>"
  have h0: "handle_event s0 ?e0 = Inr ?s1"
    using handle_axis_event [of ?e0 s0] len z
    by (simp add: spec_route_def spec_axis_table_def put_def)
  have h1: "handle_event ?s1 ?e1 = Inr ?s2"
    using handle_axis_event [of ?e1 ?s1] len ne
    by (simp add: spec_route_def spec_axis_table_def put_def)
  have run: "input_thread_func s0 [Some ?e0, Some ?e1] = Inr ?s2"
    by (simp add: h0 h1)
  have get: "fst (get_axis_state ?s2 0) = Inr ?a"
    using na ne by (simp add: get_axis_state_def array_get_def)
  have t1: "- sint (- 500 :: s16) = 500"
    by simp
  have t2: "deadzone zero_threshold_x 500 = 0"
    by (simp add: deadzone_def zero_threshold_x_def)
  have s1: "- sint (20000 :: s16) = - 20000"
    by simp
  have s2: "deadzone zero_threshold_y (- 20000) = - 12000"
    by (simp add: deadzone_def zero_threshold_y_def sign_def)
  have s3: "damp (- 12000) = - 1200"
    by (simp add: damp_def)
  have get': "fst (get_axis_state ?s2 Axis_LeftThumbstick) = Inr ?a"
    using get by (simp add: Axis_LeftThumbstick_def)
  have body: "loop_body ?s2 = Inr (0, - 1200)"
    using loop_body_deadzone [OF get'] t1 t2 s1 s2 s3 by simp
  from run get t1 t2 s1 s2 s3 body show ?thesis by blast
qed

theorem end_to_end_scenario_witness:
  "Joystick True (Some 4) (Some 2)
      [\<lparr>axis_x = 7, axis_y = 9\<rparr>, \<lparr>axis_x = 1, axis_y = 1\<rparr>, \<lparr>axis_x = 0, axis_y = 3\<rparr>,
       \<lparr>axis_x = 5, axis_y = 5\<rparr>, \<lparr>axis_x = 6, axis_y = 6\<rparr>]
      [Some (), Some (), Some ()]
     = Inr \<lparr>num_axes = 4, num_buttons = 2,
            axis_map = [\<lparr>axis_x = 0, axis_y = 0\<rparr>, \<lparr>axis_x = 0, axis_y = 0\<rparr>,
                        \<lparr>axis_x = 0, axis_y = 0\<rparr>, \<lparr>axis_x = 0, axis_y = 0\<rparr>,
                        \<lparr>axis_x = 6, axis_y = 6\<rparr>],
            button_map = [None, None, Some ()], invoked = []\<rparr>
   \<and> loop_body \<lparr>num_axes = 4, num_buttons = 2,
            axis_map = [\<lparr>axis_x = 20000, axis_y = - 500\<rparr>, \<lparr>axis_x = 0, axis_y = 0\<rparr>,
                        \<lparr>axis_x = 0, axis_y = 0\<rparr>, \<lparr>axis_x = 0, axis_y = 0\<rparr>,
                        \<lparr>axis_x = 6, axis_y = 6\<rparr>],
            button_map = [None, None, Some ()], invoked = []\<rparr>
     = Inr (0, - 1200)"
proof -
  have j: "Joystick True (Some 4) (Some 2)
      [\<lparr>axis_x = 7, axis_y = 9\<rparr>, \<lparr>axis_x = 1, axis_y = 1\<rparr>, \<lparr>axis_x = 0, axis_y = 3\<rparr>,
       \<lparr>axis_x = 5, axis_y = 5\<rparr>, \<lparr>axis_x = 6, axis_y = 6\<rparr>]
      [Some (), Some (), Some ()]
     = Inr \<lparr>num_axes = 4, num_buttons = 2,
            axis_map = [\<lparr>axis_x = 0, axis_y = 0\<rparr>, \<lparr>axis_x = 0, axis_y = 0\<rparr>,
                        \<lparr>axis_x = 0, axis_y = 0\<rparr>, \<lparr>axis_x = 0, axis_y = 0\<rparr>,
                        \<lparr>axis_x = 6, axis_y = 6\<rparr>],
            button_map = [None, None, Some ()], invoked = []\<rparr>"
    by code_simp
  show ?thesis
    using j end_to_end_scenario [OF j, of 0 0] by simp
qed


theorem axis_routing_witness:
  "ev_type \<lparr>ev_time = 0, ev_value = 77, ev_type = JS_EVENT_AXIS, ev_number = 5\<rparr>
     = JS_EVENT_AXIS
   \<and> (4 :: nat) \<le> length [\<lparr>axis_x = 1, axis_y = 2\<rparr>, \<lparr>axis_x = 3, axis_y = 4\<rparr>,
                            \<lparr>axis_x = 5, axis_y = 6\<rparr>, \<lparr>axis_x = 7, axis_y = 8\<rparr>]
   \<and> (\<exists>s'. handle_event
              \<lparr>num_axes = 4, num_buttons = 0,
                axis_map = [\<lparr>axis_x = 1, axis_y = 2\<rparr>, \<lparr>axis_x = 3, axis_y = 4\<rparr>,
                            \<lparr>axis_x = 5, axis_y = 6\<rparr>, \<lparr>axis_x = 7, axis_y = 8\<rparr>],
                button_map = [] :: unit option list, invoked = []\<rparr>
              \<lparr>ev_time = 0, ev_value = 77, ev_type = JS_EVENT_AXIS, ev_number = 5\<rparr> = Inr s'
          \<and> axis_map s' ! 2 = \<lparr>axis_x = 5, axis_y = 77\<rparr>
          \<and> axis_map s' ! 0 = \<lparr>axis_x = 1, axis_y = 2\<rparr>
          \<and> axis_map s' ! 1 = \<lparr>axis_x = 3, axis_y = 4\<rparr>
          \<and> axis_map s' ! 3 = \<lparr>axis_x = 7, axis_y = 8\<rparr>)"
  using axis_routing
    [of "\<lparr>ev_time = 0, ev_value = 77, ev_type = JS_EVENT_AXIS, ev_number = 5\<rparr>"
        "\<lparr>num_axes = 4, num_buttons = 0,
          axis_map = [\<lparr>axis_x = 1, axis_y = 2\<rparr>, \<lparr>axis_x = 3, axis_y = 4\<rparr>,
                      \<lparr>axis_x = 5, axis_y = 6\<rparr>, \<lparr>axis_x = 7, axis_y = 8\<rparr>],
          button_map = [] :: unit option list, invoked = []\<rparr>"]
  by (auto simp: spec_axis_table_def)

theorem index_out_of_range_rejected_witness:
  "Joystick True (Some 2) (Some 1) [\<lparr>axis_x = 7, axis_y = 9\<rparr>, \<lparr>axis_x = 1, axis_y = 1\<rparr>]
       [Some (), Some ()]
     = Inr \<lparr>num_axes = 2, num_buttons = 1,
            axis_map = [\<lparr>axis_x = 0, axis_y = 0\<rparr>, \<lparr>axis_x = 0, axis_y = 0\<rparr>],
            button_map = [None, Some ()], invoked = []\<rparr>
   \<and> get_axis_state
        \<lparr>num_axes = 2, num_buttons = 1,
          axis_map = [\<lparr>axis_x = 0, axis_y = 0\<rparr>, \<lparr>axis_x = 0, axis_y = 0\<rparr>],
          button_map = [None, Some ()], invoked = []\<rparr> 2
     = (Inl (Runtime_error ''Joystick: get_axis_state: axis value out of range''),
        \<lparr>num_axes = 2, num_buttons = 1,
          axis_map = [\<lparr>axis_x = 0, axis_y = 0\<rparr>, \<lparr>axis_x = 0, axis_y = 0\<rparr>],
          button_map = [None, Some ()], invoked = []\<rparr>)
   \<and> set_button_callback
        \<lparr>num_axes = 2, num_buttons = 1,
          axis_map = [\<lparr>axis_x = 0, axis_y = 0\<rparr>, \<lparr>axis_x = 0, axis_y = 0\<rparr>],
          button_map = [None, Some ()], invoked = []\<rparr> 1 (Some ())
     = (Inl (Runtime_error ''Joystick: set_button_callback: button value out of range''),
        \<lparr>num_axes = 2, num_buttons = 1,
          axis_map = [\<lparr>axis_x = 0, axis_y = 0\<rparr>, \<lparr>axis_x = 0, axis_y = 0\<rparr>],
          button_map = [None, Some ()], invoked = []\<rparr>)"
proof -
  let ?s = "\<lparr>num_axes = 2, num_buttons = 1,
            axis_map = [\<lparr>axis_x = 0, axis_y = 0\<rparr>, \<lparr>axis_x = 0, axis_y = 0\<rparr>],
            button_map = [None, Some ()], invoked = []\<rparr> :: unit joystick"
  have j: "Joystick True (Some 2) (Some 1)
             [\<lparr>axis_x = 7, axis_y = 9\<rparr>, \<lparr>axis_x = 1, axis_y = 1\<rparr>] [Some (), Some ()]
           = Inr ?s"
    by code_simp
  have r: "input_thread_func ?s [None] = Inr ?s"
    by simp
  show ?thesis
    using j r index_out_of_range_rejected
      [of ?s 2 1 "Some ()" True 2 1
          "[\<lparr>axis_x = 7, axis_y = 9\<rparr>, \<lparr>axis_x = 1, axis_y = 1\<rparr>]" "[Some (), Some ()]"
          "[None]" ?s]
    by simp
qed

theorem button_event_unchecked_witness:
  "Joystick True (Some 0) (Some 1) [] [Some CHR ''a'', Some CHR ''b'']
     = Inr \<lparr>num_axes = 0, num_buttons = 1, axis_map = [],
            button_map = [None, Some CHR ''b''], invoked = []\<rparr>
   \<and> fst (set_button_callback
        \<lparr>num_axes = 0, num_buttons = 1, axis_map = [],
          button_map = [None, Some CHR ''b''], invoked = []\<rparr> 1 (Some CHR ''c''))
     = Inl (Runtime_error ''Joystick: set_button_callback: button value out of range'')
   \<and> handle_event
        \<lparr>num_axes = 0, num_buttons = 1, axis_map = [],
          button_map = [None, Some CHR ''b''], invoked = []\<rparr>
        \<lparr>ev_time = 0, ev_value = 1, ev_type = JS_EVENT_BUTTON, ev_number = 1\<rparr>
     = Inr \<lparr>num_axes = 0, num_buttons = 1, axis_map = [],
            button_map = [None, Some CHR ''b''], invoked = [(CHR ''b'', True)]\<rparr>
   \<and> handle_event
        \<lparr>num_axes = 0, num_buttons = 1, axis_map = [],
          button_map = [None, Some CHR ''b''], invoked = []\<rparr>
        \<lparr>ev_time = 0, ev_value = 1, ev_type = JS_EVENT_BUTTON, ev_number = 2\<rparr>
     = Inl Out_of_bounds"
proof -
  let ?s = "\<lparr>num_axes = 0, num_buttons = 1, axis_map = [],
            button_map = [None, Some CHR ''b''], invoked = []\<rparr> :: char joystick"
  have j: "Joystick True (Some 0) (Some 1) [] [Some CHR ''a'', Some CHR ''b''] = Inr ?s"
    by code_simp
  show ?thesis
    using j
      button_event_unchecked [OF j,
        of "\<lparr>ev_time = 0, ev_value = 1, ev_type = JS_EVENT_BUTTON, ev_number = 1\<rparr>"
           "Some CHR ''c''"]
      button_event_unchecked [OF j,
        of "\<lparr>ev_time = 0, ev_value = 1, ev_type = JS_EVENT_BUTTON, ev_number = 2\<rparr>"
           "Some CHR ''c''"]
    by simp
qed

section \<open>Properties of the GATT client\<close>

text \<open>
  C1. On the fresh promise of a pending long write, \<open>write_long_cb\<close> never throws, and it
  sets the promise exactly when the completion is a success or is not a reliable-write
  error: to 0 on success, to the protocol error code otherwise. A completion with success
  false and reliable_error true leaves any promise as it is and only prints a line.
\<close>

theorem write_long_cb_fulfilment:
  "\<exists>p. write_long_cb success reliable_error att_ecode (Unset, out)
          = Inr (p, if \<not> success \<and> reliable_error
                    then out @ [Text (''Reliable write not verified'' @ [CHR 0x0A])]
                    else out)
      \<and> (p \<noteq> Unset \<longleftrightarrow> success \<or> \<not> reliable_error)
      \<and> (success \<longrightarrow> p = Ready 0)
      \<and> (\<not> success \<and> \<not> reliable_error \<longrightarrow> p = Ready (uint att_ecode))
      \<and> (\<not> success \<and> reliable_error \<longrightarrow>
            write_long_cb success reliable_error att_ecode (p0, out)
              = Inr (p0, out @ [Text (''Reliable write not verified'' @ [CHR 0x0A])]))"
  by (simp add: write_long_cb_def set_value_def)

theorem write_long_cb_fulfilment_witness:
  "write_long_cb False True 0x0e (Unset, []) =
      Inr (Unset, [Text (''Reliable write not verified'' @ [CHR 0x0A])])
   \<and> write_long_cb True False 0 (Unset, []) = Inr (Ready 0, [])
   \<and> write_long_cb False False 0x0e (Unset, []) = Inr (Ready 14, [])"
  using write_long_cb_fulfilment [of False True "0x0e" "[]" Unset]
    write_long_cb_fulfilment [of True False 0 "[]" Unset]
    write_long_cb_fulfilment [of False False "0x0e" "[]" Unset]
  by auto

text \<open>
  What this means for the caller: \<open>write_long_value\<close> never returns exactly when every
  completion that the collaborator delivers is such an intermediate one (or none comes).
\<close>

lemma future_get_write_long_cb_None:
  "future_get (\<lambda>(success, reliable_error, att_ecode).
       write_long_cb success reliable_error att_ecode) cs (Unset, out) = None
   \<longleftrightarrow> list_all (\<lambda>(success, reliable_error, att_ecode). \<not> success \<and> reliable_error) cs"
proof (induction cs arbitrary: out)
  case Nil
  then show ?case by simp
next
  case (Cons c cs)
  obtain su re ec where c: "c = (su, re, ec)"
    by (cases c) auto
  show ?case
    using Cons.IH by (simp add: c write_long_cb_def set_value_def)
qed

lemma write_long_value_blocks:
  "write_long_value reply reliable_writes handle offset value s = None
   \<longleftrightarrow> list_all (\<lambda>(success, reliable_error, att_ecode). \<not> success \<and> reliable_error)
         (snd reply)"
proof -
  let ?cb = "\<lambda>(success, reliable_error, att_ecode).
               write_long_cb success reliable_error att_ecode"
  let ?s1 = "call s (Write_long_value reliable_writes handle offset value)"
  let ?s2 = "if \<not> fst reply
             then printf ?s1 [Text (''Failed to initiate bt_gatt_client_write_long_value''
                                    @ [CHR 0x0A])]
             else ?s1"
  let ?g = "future_get ?cb (snd reply) (Unset, stdout ?s2)"
  have "write_long_value reply reliable_writes handle offset value s = None \<longleftrightarrow> ?g = None"
    unfolding write_long_value_def Let_def
    by (cases ?g) (auto split: sum.splits)
  then show ?thesis
    using future_get_write_long_cb_None [of "snd reply" "stdout ?s2"] by simp
qed

text \<open>
  C2. When the session id passed to \<open>write_prepare\<close> differs from the stored one (which
  is 0 when no session is open), the operation prints the mismatch and returns: no call to
  the collaborator is made and the stored session id is unchanged.
\<close>

theorem write_prepare_session_mismatch:
  assumes "sid \<noteq> reliable_session_id s"
  shows "gatt_calls (write_prepare ret sid handle offset value s) = gatt_calls s
       \<and> reliable_session_id (write_prepare ret sid handle offset value s)
           = reliable_session_id s
       \<and> stdout (write_prepare ret sid handle offset value s)
           = stdout s @ [Text (''Session id != Ongoing session id ('' @ dec (unat sid)
                               @ ''!='' @ dec (unat (reliable_session_id s)) @ '')''
                               @ [CHR 0x0A])]"
  using assms by (auto simp: write_prepare_def printf_def)

text \<open>
  For contrast, with the stored id the collaborator is called and its answer is stored.
\<close>

lemma write_prepare_session_match:
  "gatt_calls (write_prepare ret (reliable_session_id s) handle offset value s)
     = gatt_calls s @ [Prepare_write (reliable_session_id s) handle offset value]
   \<and> reliable_session_id (write_prepare ret (reliable_session_id s) handle offset value s)
       = ret"
  by (simp add: write_prepare_def printf_def call_def Let_def)

theorem write_prepare_session_mismatch_witness:
  "(5 :: u32) \<noteq> reliable_session_id \<lparr>reliable_session_id = 0, gatt_calls = [], stdout = []\<rparr>
   \<and> write_prepare 9 5 3 0 [1, 2] \<lparr>reliable_session_id = 0, gatt_calls = [], stdout = []\<rparr>
       = \<lparr>reliable_session_id = 0, gatt_calls = [],
          stdout = [Text (''Session id != Ongoing session id (5!=0)'' @ [CHR 0x0A])]\<rparr>"
proof -
  have d: "dec 5 = ''5''" "dec 0 = ''0''"
    by (simp_all add: dec.simps digits_def)
  have n: "(5 :: u32) \<noteq> reliable_session_id \<lparr>reliable_session_id = 0, gatt_calls = [], stdout = []\<rparr>"
    by simp
  show ?thesis
    using n write_prepare_session_mismatch [OF n, of 9 3 0 "[1, 2]"] d
    by (cases "write_prepare 9 5 3 0 [1, 2]
                 \<lparr>reliable_session_id = 0, gatt_calls = [], stdout = []\<rparr>") simp
qed

text \<open>
  \<open>write_cb\<close> sets the promise at every completion, so the first one decides.
\<close>

lemma future_get_write_cb:
  "future_get (\<lambda>(success, att_ecode). write_cb success att_ecode) cs (Unset, out) =
     (case cs of
        [] \<Rightarrow> None
      | (success, att_ecode) # cs' \<Rightarrow> Some (Inr (if success then 0 else uint att_ecode, out)))"
  by (cases cs) (auto simp: write_cb_def set_value_def)

text \<open>
  C3. \<open>write_execute\<close> returns in every case but one: with \<open>execute\<close> true and no
  completion delivered it waits forever. Whenever it returns, with \<open>execute\<close> true or
  false, whether or not the dispatch succeeded and whatever status the completion carries,
  it returns normally and the stored session id is 0.
\<close>

theorem write_execute_clears_session:
  "(write_execute reply session_id execute s = None \<longleftrightarrow> execute \<and> snd reply = [])
   \<and> (\<forall>r. write_execute reply session_id execute s = Some r \<longrightarrow>
          (\<exists>s'. r = Inr s' \<and> reliable_session_id s' = 0))"
proof (cases execute)
  case False
  then show ?thesis
    by (simp add: write_execute_def call_def)
next
  case True
  show ?thesis
  proof (cases "snd reply")
    case Nil
    then show ?thesis
      using True
      by (simp add: write_execute_def future_get_write_cb Let_def del: future_get.simps)
  next
    case (Cons c cs)
    obtain su ec where c: "c = (su, ec)"
      by (cases c) auto
    show ?thesis
      using True Cons
      by (auto simp: write_execute_def future_get_write_cb Let_def c printf_def
          simp del: future_get.simps)
  qed
qed

theorem write_execute_clears_session_witness:
  "write_execute (True, [(False, 0x0a)]) 7 True
       \<lparr>reliable_session_id = 7, gatt_calls = [], stdout = []\<rparr>
     = Some (Inr \<lparr>reliable_session_id = 0, gatt_calls = [Write_execute 7],
                  stdout = [Text ''Write failed: '', To_string 10,
                            Text ('' (0x0a)'' @ [CHR 0x0A])]\<rparr>)
   \<and> write_execute (False, []) 7 False
       \<lparr>reliable_session_id = 7, gatt_calls = [], stdout = []\<rparr>
     = Some (Inr \<lparr>reliable_session_id = 0, gatt_calls = [Cancel 7], stdout = []\<rparr>)
   \<and> write_execute (False, []) 7 True
       \<lparr>reliable_session_id = 7, gatt_calls = [], stdout = []\<rparr> = None"
proof -
  have a: "write_execute (True, [(False, 0x0a)]) 7 True
       \<lparr>reliable_session_id = 7, gatt_calls = [], stdout = []\<rparr>
     = Some (Inr \<lparr>reliable_session_id = 0, gatt_calls = [Write_execute 7],
                  stdout = [Text ''Write failed: '', To_string 10,
                            Text ('' (0x0a)'' @ [CHR 0x0A])]\<rparr>)"
    by (simp add: write_execute_def write_cb_def set_value_def call_def printf_def
        hex02_def digits_def Let_def)
  have b: "write_execute (False, []) 7 False
       \<lparr>reliable_session_id = 7, gatt_calls = [], stdout = []\<rparr>
     = Some (Inr \<lparr>reliable_session_id = 0, gatt_calls = [Cancel 7], stdout = []\<rparr>)"
    by (simp add: write_execute_def call_def)
  show ?thesis
    using a b
      write_execute_clears_session
        [of "(False, [])" 7 True "\<lparr>reliable_session_id = 7, gatt_calls = [], stdout = []\<rparr>"]
    by simp
qed

text \<open>
  C8, as amended. \<open>read_value\<close> and \<open>read_long_value\<close> change no member of the client
  and return nothing: they call the collaborator, and when the dispatch fails they print
  one line saying so. The completion handler \<open>read_cb\<close> only prints: the protocol error
  code with its name on failure, the bytes in hexadecimal on success. The two
  dispatch-failure lines are not among the items that \<open>read_cb\<close> prints.
\<close>

theorem read_reports_on_console_only:
  "reliable_session_id (read_value started handle s) = reliable_session_id s
   \<and> gatt_calls (read_value started handle s) = gatt_calls s @ [Read_value handle]
   \<and> stdout (read_value started handle s) =
        (if started then stdout s
         else stdout s @ [Text (''Failed to initiate read value'' @ [CHR 0x0A])])
   \<and> reliable_session_id (read_long_value started handle offset s) = reliable_session_id s
   \<and> gatt_calls (read_long_value started handle offset s)
        = gatt_calls s @ [Read_long_value handle offset]
   \<and> stdout (read_long_value started handle offset s) =
        (if started then stdout s
         else stdout s @ [Text (''Failed to initiate read long value'' @ [CHR 0x0A])])
   \<and> read_cb False att_ecode value out =
        out @ [Text ''Read request failed: '', To_string (uint att_ecode),
               Text ('' (0x'' @ hex02 (unat att_ecode) @ '')'' @ [CHR 0x0A])]
   \<and> read_cb True att_ecode value out =
        out @ [Text (CHR 0x0A # ''Read value'')]
          @ (if value = [] then [Text ('': 0 bytes'' @ [CHR 0x0A])]
             else [Text ('' ('' @ dec (length value) @ '' bytes): '')]
                  @ map (\<lambda>b. Text (hex02 (unat b) @ '' '')) value @ [Text [CHR 0x0A]])
   \<and> Text (''Failed to initiate read value'' @ [CHR 0x0A])
        \<notin> set (read_cb success att_ecode value [])
   \<and> Text (''Failed to initiate read long value'' @ [CHR 0x0A])
        \<notin> set (read_cb success att_ecode value [])"
  by (auto simp: read_value_def read_long_value_def read_cb_def printf_def call_def Let_def
      hex02_def)

text \<open>
  C8, as stated, fails: a read of handle 3 that the collaborator accepts gives the caller
  back the client with the call recorded and nothing else, whatever the completion is;
  the byte 2a of a successful completion goes to the console; and a failed dispatch differs
  from an accepted one only in the console.
\<close>

theorem read_value_returns_no_data:
  "read_value True 3 \<lparr>reliable_session_id = 0, gatt_calls = [], stdout = []\<rparr>
     = \<lparr>reliable_session_id = 0, gatt_calls = [Read_value 3], stdout = []\<rparr>
   \<and> read_cb True 0 [0x2a] []
     = [Text (CHR 0x0A # ''Read value''), Text '' (1 bytes): '', Text ''2a '',
        Text [CHR 0x0A]]
   \<and> read_long_value True 3 0 \<lparr>reliable_session_id = 0, gatt_calls = [], stdout = []\<rparr>
     = \<lparr>reliable_session_id = 0, gatt_calls = [Read_long_value 3 0], stdout = []\<rparr>
   \<and> read_value False 3 \<lparr>reliable_session_id = 0, gatt_calls = [], stdout = []\<rparr>
     = \<lparr>reliable_session_id = 0, gatt_calls = [Read_value 3],
        stdout = [Text (''Failed to initiate read value'' @ [CHR 0x0A])]\<rparr>"
proof -
  have d: "dec (Suc 0) = ''1''"
    by (simp add: dec.simps digits_def)
  show ?thesis
    by (simp add: read_value_def read_long_value_def read_cb_def printf_def call_def
        Let_def hex02_def digits_def d)
qed


section \<open>Properties of main\<close>

lemma control_loop_exit:
  "control_loop f ticks tr = Some (None, tr') \<Longrightarrow>
     \<exists>cmds. tr' = tr @ cmds \<and> list_all is_drive cmds \<and> length cmds \<le> length ticks
        \<and> (f \<or> list_ex fst ticks)"
proof (induction f ticks tr rule: control_loop.induct)
  case (1 ticks tr)
  then show ?case by simp
next
  case (2 tr)
  then show ?case by simp
next
  case (3 sig js ticks tr)
  from "3.prems" obtain throttle steering where b: "loop_body js = Inr (throttle, steering)"
    and r: "control_loop (if sig then signal_handler SIGINT False else False) ticks
              (tr @ [Drive throttle steering]) = Some (None, tr')"
    by (auto split: sum.splits)
  from "3.IH" [OF b refl r] obtain cmds where
    c: "tr' = (tr @ [Drive throttle steering]) @ cmds" "list_all is_drive cmds"
       "length cmds \<le> length ticks"
       "(if sig then signal_handler SIGINT False else False) \<or> list_ex fst ticks"
    by blast
  have "tr' = tr @ (Drive throttle steering # cmds)"
    using c(1) by simp
  moreover have "list_all is_drive (Drive throttle steering # cmds)"
    using c(2) by simp
  moreover have "length (Drive throttle steering # cmds) \<le> length ((sig, js) # ticks)"
    using c(3) by simp
  moreover have "False \<or> list_ex fst ((sig, js) # ticks)"
    using c(4) by (auto split: if_splits)
  ultimately show ?case by blast
qed

lemma control_loop_returns:
  "f \<or> list_ex fst ticks \<Longrightarrow> control_loop f ticks tr \<noteq> None"
proof (induction f ticks tr rule: control_loop.induct)
  case (1 ticks tr)
  then show ?case by simp
next
  case (2 tr)
  then show ?case by simp
next
  case (3 sig js ticks tr)
  show ?case
  proof (cases "loop_body js")
    case (Inl e)
    then show ?thesis by simp
  next
    case (Inr p)
    obtain throttle steering where p: "p = (throttle, steering)"
      by (cases p) auto
    have "(if sig then signal_handler SIGINT False else False) \<or> list_ex fst ticks"
      using "3.prems" by (auto simp: signal_handler_def)
    from "3.IH" [OF Inr [unfolded p] refl this] show ?thesis
      using Inr p by simp
  qed
qed

lemma main_returns:
  assumes "sig0 \<or> list_ex fst ticks"
  shows "main sig0 joystick ticks \<noteq> None"
proof (cases joystick)
  case (Inl e)
  then show ?thesis by (simp add: main_def)
next
  case (Inr j)
  let ?f = "if sig0 then signal_handler SIGINT False else False"
  have "?f \<or> list_ex fst ticks"
    using assms by (auto simp: signal_handler_def)
  from control_loop_returns [OF this]
  obtain fo tr where
    "control_loop ?f ticks [Connect, Enable_notifications, Enter_remote_control_mode]
       = Some (fo, tr)"
    by fastforce
  then show ?thesis
    using Inr by (cases fo) (simp_all add: main_def)
qed

lemma filter_drive_all: "list_all is_drive cmds \<Longrightarrow> filter is_drive cmds = cmds"
  by (induction cmds) auto

text \<open>
  C9. When \<open>main\<close> returns 0, which it does only after SIGINT set the flag and the loop
  test read it, the calls on the MiniPro object are: the three calls of the setup, one
  \<open>drive\<close> for each pass through the loop body, then \<open>drive(0, 0)\<close> once, then the
  return to normal mode, and last the release of the connection. So the last drive
  command is (0, 0). Lemma \<open>main_returns\<close> says that \<open>main\<close> does return once SIGINT
  has been delivered.
\<close>

theorem shutdown_issues_neutral_drive:
  assumes "main sig0 joystick ticks = Some (0, tr)"
  shows "\<exists>cmds. tr = [Connect, Enable_notifications, Enter_remote_control_mode] @ cmds
                    @ [Drive 0 0, Exit_remote_control_mode, Disable_notifications, Release]
           \<and> list_all is_drive cmds \<and> length cmds \<le> length ticks
           \<and> last (filter is_drive tr) = Drive 0 0
           \<and> (sig0 \<or> list_ex fst ticks)"
proof -
  let ?tr0 = "[Connect, Enable_notifications, Enter_remote_control_mode]"
  let ?f = "if sig0 then signal_handler SIGINT False else False"
  from assms obtain tr1 where
    l: "control_loop ?f ticks ?tr0 = Some (None, tr1)"
    and t: "tr = tr1 @ [Drive 0 0, Exit_remote_control_mode, Disable_notifications, Release]"
    by (auto simp: main_def split: sum.splits option.splits prod.splits)
  from control_loop_exit [OF l] obtain cmds where
    c: "tr1 = ?tr0 @ cmds" "list_all is_drive cmds" "length cmds \<le> length ticks"
       "?f \<or> list_ex fst ticks"
    by blast
  have 1: "tr = ?tr0 @ cmds
             @ [Drive 0 0, Exit_remote_control_mode, Disable_notifications, Release]"
    using t c(1) by simp
  have 2: "last (filter is_drive tr) = Drive 0 0"
    using 1 filter_drive_all [OF c(2)] by simp
  have 3: "sig0 \<or> list_ex fst ticks"
    using c(4) by (auto split: if_splits)
  from 1 2 3 c(2) c(3) show ?thesis by blast
qed

theorem shutdown_issues_neutral_drive_witness:
  "main False
     (Inr \<lparr>num_axes = 1, num_buttons = 0, axis_map = [\<lparr>axis_x = 0, axis_y = 0\<rparr>],
           button_map = [] :: unit option list, invoked = []\<rparr>)
     [(False, \<lparr>num_axes = 1, num_buttons = 0,
                axis_map = [\<lparr>axis_x = 20000, axis_y = - 500\<rparr>],
                button_map = [], invoked = []\<rparr>),
      (True, \<lparr>num_axes = 1, num_buttons = 0,
               axis_map = [\<lparr>axis_x = - 9000, axis_y = - 10000\<rparr>],
               button_map = [], invoked = []\<rparr>)]
   = Some (0, [Connect, Enable_notifications, Enter_remote_control_mode,
               Drive 0 (- 1200), Drive 2000 100,
               Drive 0 0, Exit_remote_control_mode, Disable_notifications, Release])"
proof -
  have m: "main False
     (Inr \<lparr>num_axes = 1, num_buttons = 0, axis_map = [\<lparr>axis_x = 0, axis_y = 0\<rparr>],
           button_map = [] :: unit option list, invoked = []\<rparr>)
     [(False, \<lparr>num_axes = 1, num_buttons = 0,
                axis_map = [\<lparr>axis_x = 20000, axis_y = - 500\<rparr>],
                button_map = [], invoked = []\<rparr>),
      (True, \<lparr>num_axes = 1, num_buttons = 0,
               axis_map = [\<lparr>axis_x = - 9000, axis_y = - 10000\<rparr>],
               button_map = [], invoked = []\<rparr>)]
   = Some (0, [Connect, Enable_notifications, Enter_remote_control_mode,
               Drive 0 (- 1200), Drive 2000 100,
               Drive 0 0, Exit_remote_control_mode, Disable_notifications, Release])"
    by code_simp
  show ?thesis
    using m shutdown_issues_neutral_drive [OF m] by simp
qed

end
